theory Spec2Isabelle
  imports Complex_Main "HOL-Library.AList"
begin

section \<open>termpdf.py: the page presentation and interaction engine\<close>

text \<open>
  A shallow embedding of \<^verbatim>\<open>src/termpdf.py\<close>. Python objects are records that are
  passed in and returned updated; Python's unbounded integers are \<^typ>\<open>int\<close>; byte
  strings and strings are \<^typ>\<open>string\<close>; an exception is a value of \<open>exn\<close>.
  Python's float arithmetic in the layout computation is idealised by exact rational
  arithmetic (\<^typ>\<open>rat\<close>), a division by zero raising \<open>ZeroDivisionError\<close> as in
  Python. The document engine (fitz), zlib and base64 are outside the repository and
  enter as parameters.
\<close>

subsection \<open>Exceptions and Python list indexing\<close>

datatype exn = NameError | ZeroDivisionError | IndexError | KeyError | ValueError | SystemExit

text \<open>\<^verbatim>\<open>xs[i]\<close>: a negative index counts from the end, an index out of range raises.\<close>

definition index_of :: "'a list \<Rightarrow> int \<Rightarrow> exn + nat" where
  "index_of xs i =
     (if 0 \<le> i \<and> i < int (length xs) then Inr (nat i)
      else if i < 0 \<and> - int (length xs) \<le> i then Inr (nat (int (length xs) + i))
      else Inl IndexError)"

definition subscript :: "'a list \<Rightarrow> int \<Rightarrow> exn + 'a" where
  "subscript xs i = (case index_of xs i of Inl e \<Rightarrow> Inl e | Inr k \<Rightarrow> Inr (xs ! k))"

text \<open>\<^verbatim>\<open>int(x)\<close> on a float truncates towards zero.\<close>

definition py_int :: "rat \<Rightarrow> int" where
  "py_int x = (if 0 \<le> x then \<lfloor>x\<rfloor> else \<lceil>x\<rceil>)"

subsection \<open>\<^verbatim>\<open>class Page_State\<close>\<close>

text \<open>
  \<^verbatim>\<open>factor\<close> starts as the tuple \<^verbatim>\<open>(1,1)\<close> and is later overwritten by a float,
  so the field holds either.
\<close>

datatype factor_value = Tuple int int | Float rat

record page_state =
  number :: int
  stale :: bool
  factor :: factor_value
  place :: "int \<times> int \<times> int \<times> int"
  crop :: "(rat \<times> rat \<times> rat \<times> rat) option"

definition Page_State :: "int \<Rightarrow> page_state" where
  "Page_State p =
     \<lparr>number = p, stale = True, factor = Tuple 1 1, place = (0, 0, 40, 40), crop = None\<rparr>"

subsection \<open>\<^verbatim>\<open>class Document\<close>: fields and navigation\<close>

text \<open>
  The fields of \<^verbatim>\<open>Document\<close> that the viewer reads or writes. \<open>pageCount\<close>,
  \<open>isPDF\<close> and \<open>getToC\<close> are what the inherited \<^verbatim>\<open>fitz.Document\<close> reports:
  the page count, whether the file is a PDF, and the table of contents as
  (level, title, 1-based page) entries.
\<close>

record document =
  pageCount :: int
  isPDF :: bool
  getToC :: "(int \<times> string \<times> int) list"
  key :: "string option"
  page :: int
  prevpage :: int
  pages :: int
  first_page_offset :: int
  chapter_idx :: int
  rotation :: int
  fontsize :: int
  autocrop :: bool
  alpha :: bool
  invert :: bool
  tint :: bool
  tint_color :: string
  page_states :: "page_state list"

definition TINT_COLOR :: string where
  "TINT_COLOR = ''antiquewhite2''"

text \<open>
  \<^verbatim>\<open>Document.__init__\<close>, given what fitz reports for the opened file.
  \<^verbatim>\<open>range(0, self.pages + 1)\<close> is \<open>[0..pages]\<close>, empty when \<open>pages < 0\<close>.
\<close>

definition Document :: "int \<Rightarrow> bool \<Rightarrow> (int \<times> string \<times> int) list \<Rightarrow> document" where
  "Document count pdf toc =
     \<lparr>pageCount = count, isPDF = pdf, getToC = toc, key = None,
      page = 0, prevpage = 0, pages = count - 1, first_page_offset = 1, chapter_idx = 0,
      rotation = 0, fontsize = 12, autocrop = False, alpha = False, invert = False,
      tint = False, tint_color = TINT_COLOR,
      page_states = map Page_State [0..count - 1]\<rparr>"

definition goto_page :: "int \<Rightarrow> document \<Rightarrow> document" where
  "goto_page p d =
     (let d = d\<lparr>prevpage := page d\<rparr>
      in if p > pages d then d\<lparr>page := pages d\<rparr>
         else if p < 0 then d\<lparr>page := 0\<rparr>
         else d\<lparr>page := p\<rparr>)"

text \<open>\<^verbatim>\<open>if p == None: p = self.page\<close>.\<close>

definition page_to_logical :: "int option \<Rightarrow> document \<Rightarrow> int" where
  "page_to_logical p d =
     (let p = (case p of None \<Rightarrow> page d | Some q \<Rightarrow> q) in p + first_page_offset d)"

text \<open>\<^verbatim>\<open>if not p: p = self.page\<close>: both \<^verbatim>\<open>None\<close> and \<^verbatim>\<open>0\<close> are falsy.\<close>

definition logical_to_page :: "int option \<Rightarrow> document \<Rightarrow> int" where
  "logical_to_page p d =
     (let p = (case p of None \<Rightarrow> page d | Some q \<Rightarrow> if q = 0 then page d else q)
      in p - first_page_offset d)"

definition goto_logical_page :: "int \<Rightarrow> document \<Rightarrow> document" where
  "goto_logical_page p d = (let p = logical_to_page (Some p) d in goto_page p d)"

definition next_page :: "int \<Rightarrow> document \<Rightarrow> document" where
  "next_page count d = goto_page (page d + count) d"

definition prev_page :: "int \<Rightarrow> document \<Rightarrow> document" where
  "prev_page count d = goto_page (page d - count) d"

text \<open>
  \<^verbatim>\<open>goto_chap\<close>: the \<^verbatim>\<open>try\<close> body evaluates \<^verbatim>\<open>toc[n][2] - 1\<close> before it
  calls \<^verbatim>\<open>goto_page\<close>, so a failed lookup leaves the document as it was after
  \<^verbatim>\<open>self.chapter = n\<close>; the bare \<^verbatim>\<open>except\<close> catches every exception.
\<close>

definition goto_chap :: "int \<Rightarrow> document \<Rightarrow> document" where
  "goto_chap n d =
     (let toc = getToC d;
          n = (if n > int (length toc) then int (length toc) else if n < 0 then 0 else n);
          d = d\<lparr>chapter_idx := n\<rparr>
      in case subscript toc n of
           Inr (lvl, title, target) \<Rightarrow> goto_page (target - 1) d
         | Inl e \<Rightarrow> goto_page 0 d)"

text \<open>\<^verbatim>\<open>current_chap\<close>: the loop over \<^verbatim>\<open>enumerate(toc)\<close>, \<open>i\<close> the running index.\<close>

fun current_chap_from :: "int \<Rightarrow> int \<Rightarrow> (int \<times> string \<times> int) list \<Rightarrow> int option" where
  "current_chap_from p i [] = None"
| "current_chap_from p i (ch # rest) =
     (let cp = snd (snd ch) - 1
      in if cp > p then Some (i - 1) else current_chap_from p (i + 1) rest)"

definition current_chap :: "document \<Rightarrow> int" where
  "current_chap d =
     (let toc = getToC d; p = page d
      in case current_chap_from p 0 toc of Some r \<Rightarrow> r | None \<Rightarrow> int (length toc))"

definition next_chap :: "int \<Rightarrow> document \<Rightarrow> document" where
  "next_chap count d = goto_chap (chapter_idx d + count) d"

definition prev_chap :: "int \<Rightarrow> document \<Rightarrow> document" where
  "prev_chap count d = goto_chap (chapter_idx d - count) d"

definition mark_all_pages_stale :: "document \<Rightarrow> document" where
  "mark_all_pages_stale d = d\<lparr>page_states := map (\<lambda>s. s\<lparr>stale := True\<rparr>) (page_states d)\<rparr>"

subsection \<open>Opening a document (\<^verbatim>\<open>main\<close>)\<close>

text \<open>
  The options \<^verbatim>\<open>parse_args\<close> returns (\<^verbatim>\<open>-p n\<close> stored as \<open>n - 1\<close>,
  \<^verbatim>\<open>-f n\<close>, \<^verbatim>\<open>--citekey\<close>), set on the document by \<^verbatim>\<open>setattr\<close>, after
  which \<^verbatim>\<open>main\<close> normalises the page number with \<^verbatim>\<open>goto_page\<close>.
\<close>

record opts =
  opt_page :: "int option"
  opt_first_page_offset :: "int option"
  opt_key :: "string option"

definition open_document :: "int \<Rightarrow> bool \<Rightarrow> (int \<times> string \<times> int) list \<Rightarrow> opts \<Rightarrow> document" where
  "open_document count pdf toc os =
     (let d = Document count pdf toc;
          d = (case opt_page os of Some p \<Rightarrow> d\<lparr>page := p\<rparr> | None \<Rightarrow> d);
          d = (case opt_first_page_offset os of Some f \<Rightarrow> d\<lparr>first_page_offset := f\<rparr> | None \<Rightarrow> d);
          d = (case opt_key os of Some k \<Rightarrow> d\<lparr>key := Some k\<rparr> | None \<Rightarrow> d)
      in goto_page (page d) d)"

subsection \<open>\<^verbatim>\<open>class screen\<close>, the terminal streams and the external libraries\<close>

record screen =
  rows :: int
  cols :: int
  width :: int
  height :: int
  cell_width :: int
  cell_height :: int

text \<open>
  What the program writes to \<^verbatim>\<open>sys.stdout\<close>, as the parts of each escape sequence:
  a graphics frame \<^verbatim>\<open>ESC _G k=v,...,k=v [; payload] ESC \\<close> is its key/value pairs in
  order and its payload (empty when the frame has none), \<^verbatim>\<open>ESC [ r ; c f\<close> is
  \<open>Set_cursor r c\<close> and \<^verbatim>\<open>ESC [ 2 J\<close> is \<open>Clear_screen\<close>.
\<close>

datatype gr_value = Num int | Str string

type_synonym gr_cmd = "(string \<times> gr_value) list"

datatype term_output = Gr_frame gr_cmd string | Set_cursor int int | Clear_screen

text \<open>
  \<open>stdin\<close> holds the bytes the terminal will still deliver to \<^verbatim>\<open>sys.stdin.buffer\<close>;
  \<open>rendered\<close> is a log of the calls of \<^verbatim>\<open>page.getPixmap\<close>, by page index, kept so
  that a property can say how often a page was rendered.
\<close>

record io =
  stdout :: "term_output list"
  stdin :: string
  rendered :: "int list"

text \<open>
  The crop box \<^verbatim>\<open>display_page\<close> has put on the page when it asks for its bounds,
  and the operations of fitz, zlib and base64 that the viewer calls.
\<close>

datatype crop_mode = Auto_crop | Media_box | As_loaded

record pixmap =
  pix_width :: int
  pix_height :: int
  samples :: string

record engine =
  page_bound :: "int \<Rightarrow> crop_mode \<Rightarrow> rat \<times> rat"
  getPixmap :: "int \<Rightarrow> crop_mode \<Rightarrow> rat \<Rightarrow> int \<Rightarrow> bool \<Rightarrow> pixmap"
  invertIRect :: "pixmap \<Rightarrow> pixmap"
  tintWith :: "int \<Rightarrow> int \<Rightarrow> int \<Rightarrow> pixmap \<Rightarrow> pixmap"
  getColor :: "string \<Rightarrow> rat \<times> rat \<times> rat"
  compress :: "string \<Rightarrow> string"
  standard_b64encode :: "string \<Rightarrow> string"
  layout :: "int \<Rightarrow> int \<Rightarrow> int \<Rightarrow> int \<times> (int \<times> string \<times> int) list
               \<Rightarrow> int \<times> (int \<times> string \<times> int) list"

text \<open>
  How a call ends: it returns, it raises, or it waits for ever on the terminal. Each
  carries the state reached, since Python keeps the mutations made before a raise.
\<close>

datatype 'a outcome = Returned 'a | Raised exn 'a | Blocked 'a

fun final :: "'a outcome \<Rightarrow> 'a" where
  "final (Returned s) = s"
| "final (Raised e s) = s"
| "final (Blocked s) = s"

definition set_cursor :: "screen \<Rightarrow> int \<Rightarrow> int \<Rightarrow> io \<Rightarrow> io" where
  "set_cursor scr c r t =
     (let c = (if c > cols scr then cols scr else if c < 0 then 0 else c);
          r = (if r > rows scr then rows scr else if r < 0 then 0 else r)
      in t\<lparr>stdout := stdout t @ [Set_cursor r c]\<rparr>)"

definition clear :: "io \<Rightarrow> io" where
  "clear t = t\<lparr>stdout := stdout t @ [Clear_screen]\<rparr>"

text \<open>\<^verbatim>\<open>get_size\<close>, given the four numbers \<^verbatim>\<open>(r, c, w, h)\<close> the ioctl reports.\<close>

definition get_size :: "int \<times> int \<times> int \<times> int \<Rightarrow> screen" where
  "get_size buf =
     (case buf of (r, c, w, h) \<Rightarrow>
        let cw = w div (if c \<noteq> 0 then c else 1);
            ch = h div (if r \<noteq> 0 then r else 1)
        in \<lparr>rows = r, cols = c, width = w, height = h, cell_width = cw, cell_height = ch\<rparr>)"

subsection \<open>Kitty graphics functions\<close>

text \<open>
  \<^verbatim>\<open>serialize_gr_command\<close>: \<^verbatim>\<open>cmd.items()\<close> in insertion order; the payload part is
  written only \<^verbatim>\<open>if payload\<close>, so \<^verbatim>\<open>None\<close> and \<^verbatim>\<open>b''\<close> are both the empty payload.
\<close>

definition serialize_gr_command :: "gr_cmd \<Rightarrow> string \<Rightarrow> term_output" where
  "serialize_gr_command cmd payload = Gr_frame cmd payload"

definition write_gr_cmd :: "gr_cmd \<Rightarrow> string \<Rightarrow> io \<Rightarrow> io" where
  "write_gr_cmd cmd payload t = t\<lparr>stdout := stdout t @ [serialize_gr_command cmd payload]\<rparr>"

definition ST :: string where
  "ST = [char_of (27::nat), char_of (92::nat)]"

text \<open>\<^verbatim>\<open>resp[-2:] != b'\033\\'\<close> is \<open>\<not> ends_with_ST resp\<close>.\<close>

definition ends_with_ST :: "string \<Rightarrow> bool" where
  "ends_with_ST resp = (drop (length resp - 2) resp = ST)"

text \<open>
  The loop \<^verbatim>\<open>while resp[-2:] != b'\033\\': resp += sys.stdin.buffer.read(1)\<close> over
  the bytes still to come: the response read and the bytes left, or \<open>None\<close> when the
  terminator never arrives and the loop never ends.
\<close>

fun read_response :: "string \<Rightarrow> string \<Rightarrow> (string \<times> string) option" where
  "read_response resp [] = (if ends_with_ST resp then Some (resp, []) else None)"
| "read_response resp (b # bs) =
     (if ends_with_ST resp then Some (resp, b # bs) else read_response (resp @ [b]) bs)"

text \<open>\<^verbatim>\<open>b'OK' in resp\<close>.\<close>

fun bytes_in :: "string \<Rightarrow> string \<Rightarrow> bool" where
  "bytes_in sub [] = (sub = [])"
| "bytes_in sub (x # xs) = (take (length sub) (x # xs) = sub \<or> bytes_in sub xs)"

definition write_gr_cmd_with_response :: "gr_cmd \<Rightarrow> string \<Rightarrow> io \<Rightarrow> (bool \<times> io) outcome" where
  "write_gr_cmd_with_response cmd payload t =
     (let t = write_gr_cmd cmd payload t
      in case read_response [] (stdin t) of
           None \<Rightarrow> Blocked (False, t\<lparr>stdin := []\<rparr>)
         | Some (resp, rest) \<Rightarrow>
             if bytes_in ''OK'' resp then Returned (True, t\<lparr>stdin := rest\<rparr>)
             else Returned (False, t\<lparr>stdin := rest\<rparr>))"

text \<open>
  The loop of \<^verbatim>\<open>write_chunked\<close>. \<^verbatim>\<open>cmd['m'] = m\<close> keeps the position of an existing
  key and appends a new one; \<^verbatim>\<open>cmd.clear()\<close> leaves the empty dictionary for the
  next round.
\<close>

function write_chunks :: "gr_cmd \<Rightarrow> string \<Rightarrow> io \<Rightarrow> io" where
  "write_chunks cmd data t =
     (if data = [] then t
      else write_chunks []
             (drop 4096 data)
             (write_gr_cmd
                (AList.update ''m'' (Num (if drop 4096 data \<noteq> [] then 1 else 0)) cmd)
                (take 4096 data) t))"
  by pat_completeness auto
termination
  by (relation "measure (\<lambda>(cmd, data, t). length data)") auto

declare write_chunks.simps [simp del]

text \<open>\<^verbatim>\<open>cmd['f']\<close> raises \<^verbatim>\<open>KeyError\<close> when the command has no format key.\<close>

definition write_chunked :: "engine \<Rightarrow> gr_cmd \<Rightarrow> string \<Rightarrow> io \<Rightarrow> exn + io" where
  "write_chunked eng cmd data t =
     (case map_of cmd ''f'' of
        None \<Rightarrow> Inl KeyError
      | Some f \<Rightarrow>
          let data' = (if f \<noteq> Num 100 then compress eng data else data);
              cmd' = (if f \<noteq> Num 100 then AList.update ''o'' (Str ''z'') cmd else cmd);
              encoded = standard_b64encode eng data'
          in Inr (write_chunks cmd' encoded t))"

subsection \<open>\<^verbatim>\<open>Document.display_page\<close>\<close>

definition clear_page :: "int \<Rightarrow> io \<Rightarrow> io" where
  "clear_page p t =
     write_gr_cmd [(''a'', Str ''d''), (''d'', Str ''a''), (''i'', Num (p + 1))] [] t"

text \<open>An attribute assignment \<^verbatim>\<open>self.page_states[p].x = v\<close>, at the list position of \<open>p\<close>.\<close>

definition set_state :: "nat \<Rightarrow> (page_state \<Rightarrow> page_state) \<Rightarrow> document \<Rightarrow> document" where
  "set_state k f d = d\<lparr>page_states := (page_states d)[k := f (page_states d ! k)]\<rparr>"

text \<open>
  Lines 351 to 363: the zoomed and rotated pixmap, inverted and tinted as the toggles
  say. \<^verbatim>\<open>pix.tintWith(red, blue, green)\<close> receives the three components in the order
  of \<^verbatim>\<open>tint[0], tint[1], tint[2]\<close>.
\<close>

definition render_page :: "engine \<Rightarrow> int \<Rightarrow> crop_mode \<Rightarrow> rat \<Rightarrow> document \<Rightarrow> pixmap" where
  "render_page eng p cm fac d =
     (let pix = getPixmap eng p cm fac (rotation d) (alpha d);
          pix = (if invert d then invertIRect eng pix else pix);
          pix = (if tint d then
                   (let rgb = getColor eng (tint_color d);
                        red = py_int (fst rgb * 256);
                        blue = py_int (fst (snd rgb) * 256);
                        green = py_int (snd (snd rgb) * 256)
                    in tintWith eng red blue green pix)
                 else pix)
      in pix)"

text \<open>
  The body of \<^verbatim>\<open>if page_state.stale:\<close> (lines 349 to 374): render, build the
  descriptor and transfer the image. The call of \<^verbatim>\<open>getPixmap\<close> is logged in
  \<open>rendered\<close>; \<^verbatim>\<open>write_chunked\<close> follows it in the same branch.
\<close>

definition transmit_page :: "engine \<Rightarrow> int \<Rightarrow> crop_mode \<Rightarrow> rat \<Rightarrow> document \<Rightarrow> io \<Rightarrow> exn + io" where
  "transmit_page eng p cm fac d t =
     (let pix = render_page eng p cm fac d;
          t = t\<lparr>rendered := rendered t @ [p]\<rparr>;
          cmd = [(''i'', Num (p + 1)), (''t'', Str ''d''),
                 (''s'', Num (pix_width pix)), (''v'', Num (pix_height pix))];
          cmd = AList.update ''f'' (Num (if alpha d then 32 else 24)) cmd
      in write_chunked eng cmd (samples pix) t)"

text \<open>
  Lines 305 to 321: the crop box put on the page (fitz keeps it), and the width and
  height \<^verbatim>\<open>page.bound()\<close> then reports, swapped unless the rotation is 0 or 180.
\<close>

definition crop_mode_of :: "document \<Rightarrow> crop_mode" where
  "crop_mode_of d = (if autocrop d then Auto_crop else if isPDF d then Media_box else As_loaded)"

definition page_size :: "engine \<Rightarrow> int \<Rightarrow> document \<Rightarrow> rat \<times> rat" where
  "page_size eng p d =
     (let bound = page_bound eng p (crop_mode_of d)
      in if rotation d = 0 \<or> rotation d = 180 then (fst bound, snd bound)
         else (snd bound, fst bound))"

text \<open>Lines 313 to 326, for a page size without a zero: \<^verbatim>\<open>factor = min(fx, fy)\<close>.\<close>

definition zoom_factor :: "screen \<Rightarrow> rat \<Rightarrow> rat \<Rightarrow> rat" where
  "zoom_factor scr pw ph =
     (let dw = of_int (width scr);
          dh = of_int (height scr - cell_height scr);
          fx = dw / pw;
          fy = dh / ph
      in min fx fy)"

text \<open>Lines 329 to 340, for a cell size without a zero: the place in cells.\<close>

definition page_place :: "screen \<Rightarrow> rat \<Rightarrow> rat \<Rightarrow> rat \<Rightarrow> int \<times> int \<times> int \<times> int" where
  "page_place scr fac pw ph =
     (let dw = of_int (width scr);
          dh = of_int (height scr - cell_height scr);
          zw = fac * pw;
          zh = fac * ph;
          pix_x = dw / 2 - zw / 2;
          pix_y = dh / 2 - zh / 2;
          l_col = py_int (pix_x / of_int (cell_width scr));
          t_row = py_int (pix_y / of_int (cell_height scr));
          r_col = l_col + py_int (zw / of_int (cell_width scr));
          b_row = t_row + py_int (zh / of_int (cell_height scr))
      in (l_col, t_row, r_col, b_row))"

text \<open>
  Lines 376 to 387, \<open>k\<close> the list position of \<open>p\<close>. In the failure branch the statement
  after \<^verbatim>\<open>self.page_states[p].stale = True\<close> is \<^verbatim>\<open>bar.message = ...\<close>. \<^verbatim>\<open>bar\<close>
  is a local variable of \<^verbatim>\<open>view\<close> and a parameter of the overlay functions; it is
  neither a parameter nor a local of \<^verbatim>\<open>display_page\<close> and the module binds no global
  of that name, so the statement raises \<^verbatim>\<open>NameError\<close> and line 387 is not reached.
  When the display succeeds, or \<open>display\<close> is false, line 387 clears the stale flag.
\<close>

definition show_page :: "int \<Rightarrow> nat \<Rightarrow> bool \<Rightarrow> document \<Rightarrow> io \<Rightarrow> (document \<times> io) outcome" where
  "show_page p k display d t =
     (if display then
        (case write_gr_cmd_with_response
                [(''a'', Str ''p''), (''i'', Num (p + 1)), (''z'', Num (- 1))] []
                (clear_page (prevpage d) t) of
           Blocked (success, t) \<Rightarrow> Blocked (d, t)
         | Raised e (success, t) \<Rightarrow> Raised e (d, t)
         | Returned (success, t) \<Rightarrow>
             if \<not> success
             then Raised NameError (set_state k (\<lambda>s. s\<lparr>stale := True\<rparr>) d, t)
             else Returned (set_state k (\<lambda>s. s\<lparr>stale := False\<rparr>) d, t))
      else Returned (set_state k (\<lambda>s. s\<lparr>stale := False\<rparr>) d, t))"

text \<open>
  \<^verbatim>\<open>display_page(self, scr, p, display=True)\<close>. \<^verbatim>\<open>loadPage\<close> and the crop box
  calls belong to fitz. The divisions raise \<^verbatim>\<open>ZeroDivisionError\<close> where the source
  divides: by the page size before any assignment, by the cell size after
  \<^verbatim>\<open>factor\<close> has been stored. \<^verbatim>\<open>page_state\<close> is the object
  \<^verbatim>\<open>self.page_states[p]\<close> itself, so line 349 reads the stale flag of the state as
  updated. \<^verbatim>\<open>scr.swallow_keys()\<close> only drains pending key presses and is left out.
\<close>

definition display_page ::
  "engine \<Rightarrow> screen \<Rightarrow> int \<Rightarrow> bool \<Rightarrow> document \<times> io \<Rightarrow> (document \<times> io) outcome" where
  "display_page eng scr p display w =
     (case w of (d, t) \<Rightarrow>
      case index_of (page_states d) p of
        Inl e \<Rightarrow> Raised e (d, t)
      | Inr k \<Rightarrow>
        (case page_size eng p d of (pw, ph) \<Rightarrow>
         if pw = 0 \<or> ph = 0 then Raised ZeroDivisionError (d, t)
         else
           let fac = zoom_factor scr pw ph;
               d = set_state k (\<lambda>s. s\<lparr>factor := Float fac\<rparr>) d
           in if cell_width scr = 0 \<or> cell_height scr = 0 then Raised ZeroDivisionError (d, t)
              else
                let pl = page_place scr fac pw ph;
                    d = set_state k (\<lambda>s. s\<lparr>place := pl\<rparr>) d;
                    t = set_cursor scr (fst pl) (fst (snd pl)) t
                in case (if stale (page_states d ! k)
                         then transmit_page eng p (crop_mode_of d) fac d t
                         else Inr t) of
                     Inl e \<Rightarrow> Raised e (d, t)
                   | Inr t \<Rightarrow> show_page p k display d t))"


text \<open>Whether a call returned, and how many pixmaps were rendered while it ran.\<close>

fun returned :: "'a outcome \<Rightarrow> bool" where
  "returned (Returned s) = True"
| "returned (Raised e s) = False"
| "returned (Blocked s) = False"


subsection \<open>Key bindings (\<^verbatim>\<open>class shortcuts\<close>)\<close>

definition ord :: "char \<Rightarrow> int" where
  "ord c = int (of_char c)"

text \<open>The key codes of curses (ncurses' \<^verbatim>\<open>curses.h\<close>).\<close>

definition KEY_DOWN :: int where "KEY_DOWN = 258"
definition KEY_UP :: int where "KEY_UP = 259"
definition KEY_LEFT :: int where "KEY_LEFT = 260"
definition KEY_RIGHT :: int where "KEY_RIGHT = 261"
definition KEY_ENTER :: int where "KEY_ENTER = 343"
definition KEY_RESIZE :: int where "KEY_RESIZE = 410"

record keymap =
  GOTO_PAGE :: "int set"
  GOTO :: "int set"
  NEXT_PAGE :: "int set"
  PREV_PAGE :: "int set"
  NEXT_CHAP :: "int set"
  PREV_CHAP :: "int set"
  HINTS :: "int set"
  OPEN :: "int set"
  SHOW_TOC :: "int set"
  SHOW_META :: "int set"
  SHOW_URLS :: "int set"
  TOGGLE_TEXT_MODE :: "int set"
  ROTATE_CW :: "int set"
  ROTATE_CCW :: "int set"
  VISUAL_MODE :: "int set"
  YANK :: "int set"
  SEND_NOTE :: "int set"
  TOGGLE_AUTOCROP :: "int set"
  TOGGLE_ALPHA :: "int set"
  TOGGLE_INVERT :: "int set"
  TOGGLE_TINT :: "int set"
  INC_FONT :: "int set"
  DEC_FONT :: "int set"
  REFRESH :: "int set"
  QUIT :: "int set"
  DEBUG :: "int set"

definition shortcuts :: keymap where
  "shortcuts =
     \<lparr>GOTO_PAGE = {ord CHR ''G''},
      GOTO = {ord CHR ''g''},
      NEXT_PAGE = {ord CHR ''j'', KEY_DOWN, ord CHR '' ''},
      PREV_PAGE = {ord CHR ''k'', KEY_UP},
      NEXT_CHAP = {ord CHR ''l'', KEY_RIGHT},
      PREV_CHAP = {ord CHR ''h'', KEY_LEFT},
      HINTS = {ord CHR ''f''},
      OPEN = {KEY_ENTER, KEY_RIGHT, 10},
      SHOW_TOC = {ord CHR ''t''},
      SHOW_META = {ord CHR ''M''},
      SHOW_URLS = {ord CHR ''u''},
      TOGGLE_TEXT_MODE = {ord CHR ''T''},
      ROTATE_CW = {ord CHR ''r''},
      ROTATE_CCW = {ord CHR ''R''},
      VISUAL_MODE = {ord CHR ''v''},
      YANK = {ord CHR ''y''},
      SEND_NOTE = {ord CHR ''n''},
      TOGGLE_AUTOCROP = {ord CHR ''c''},
      TOGGLE_ALPHA = {ord CHR ''a''},
      TOGGLE_INVERT = {ord CHR ''i''},
      TOGGLE_TINT = {ord CHR ''d''},
      INC_FONT = {ord CHR ''+''},
      DEC_FONT = {ord CHR ''-''},
      REFRESH = {18, KEY_RESIZE},
      QUIT = {3, ord CHR ''q''},
      DEBUG = {ord CHR ''D''}\<rparr>"

subsection \<open>\<^verbatim>\<open>Document.set_layout\<close>\<close>

text \<open>\<^verbatim>\<open>round(x)\<close>: to the nearest integer, a tie to the even one.\<close>

definition py_round :: "rat \<Rightarrow> int" where
  "py_round x =
     (let f = \<lfloor>x\<rfloor>; r = x - of_int f
      in if r < 1 / 2 then f else if 1 / 2 < r then f + 1 else if even f then f else f + 1)"

text \<open>
  \<^verbatim>\<open>set_layout(self, scr, fontsize=None)\<close>. \<^verbatim>\<open>self.page / self.pages\<close> raises
  \<^verbatim>\<open>ZeroDivisionError\<close> for a one-page document; \<^verbatim>\<open>if fontsize:\<close> takes both
  \<^verbatim>\<open>None\<close> and 0 for no font size; \<^verbatim>\<open>self.layout\<close> is fitz's reflow, which may
  change the page count and the table of contents it reports.
\<close>

definition set_layout :: "engine \<Rightarrow> screen \<Rightarrow> int option \<Rightarrow> document \<Rightarrow> exn + document" where
  "set_layout eng scr fs d =
     (if pages d = 0 then Inl ZeroDivisionError
      else
        let pct = rat_of_int (page d) / rat_of_int (pages d);
            w = width scr;
            h = height scr;
            d = (case fs of None \<Rightarrow> d | Some f \<Rightarrow> if f \<noteq> 0 then d\<lparr>fontsize := f\<rparr> else d);
            f = fontsize d;
            reflowed = layout eng w h f (pageCount d, getToC d);
            d = d\<lparr>pageCount := fst reflowed, getToC := snd reflowed\<rparr>
        in Inr (goto_page (py_round (rat_of_int (pages d) * pct)) d))"

subsection \<open>The main loop (\<^verbatim>\<open>view\<close>)\<close>

text \<open>
  \<^verbatim>\<open>int(count_string)\<close>, for the strings of decimal digits that \<^verbatim>\<open>view\<close> builds;
  any other string is answered with \<^verbatim>\<open>ValueError\<close>.
\<close>

definition is_digit :: "char \<Rightarrow> bool" where
  "is_digit c = (48 \<le> ord c \<and> ord c < 58)"

definition int_of_str :: "string \<Rightarrow> exn + int" where
  "int_of_str s =
     (if s \<noteq> [] \<and> list_all is_digit s then Inr (foldl (\<lambda>a c. 10 * a + (ord c - 48)) 0 s)
      else Inl ValueError)"

text \<open>Lines 1104 to 1107.\<close>

definition count_of :: "string \<Rightarrow> exn + int" where
  "count_of s = (if s = [] then Inr 1 else int_of_str s)"

text \<open>
  The variables of \<^verbatim>\<open>view\<close>: the document \<^verbatim>\<open>doc\<close>, the screen \<^verbatim>\<open>scr\<close>, the
  terminal streams, the count prefix and the key stack. The status bar only prints and
  is left out.
\<close>

record view_state =
  v_doc :: document
  v_scr :: screen
  v_tty :: io
  count_string :: string
  stack :: "int list"

text \<open>
  What the loop does after a key: go on, or first run one of the interactive
  functions (an overlay, visual mode, the note bridge) and then go on with the count
  and the stack reset, as the state says.
\<close>

datatype control =
  Continue | Show_toc | Show_meta | Show_urls | View_text | Visual_mode | Send_note

definition reset :: "view_state \<Rightarrow> view_state" where
  "reset vs = vs\<lparr>count_string := [], stack := [0]\<rparr>"

text \<open>
  One round of the loop from \<^verbatim>\<open>count\<close> on (lines 1104 to 1250), \<open>k\<close> being what
  \<^verbatim>\<open>getch\<close> returned and \<open>winsz\<close> what the ioctl reports if the screen size is read.
  The branches are those of the \<^verbatim>\<open>if\<close>/\<^verbatim>\<open>elif\<close> chain, in its order.
  \<^verbatim>\<open>stack[0]\<close> is read only when the earlier branches did not match, and raises on
  an empty list. \<^verbatim>\<open>clean_exit\<close> raises \<^verbatim>\<open>SystemExit\<close>.
\<close>

definition view_key ::
  "engine \<Rightarrow> int \<times> int \<times> int \<times> int \<Rightarrow> int \<Rightarrow> view_state \<Rightarrow> (control \<times> view_state) outcome" where
  "view_key eng winsz k vs =
     (case count_of (count_string vs) of
        Inl e \<Rightarrow> Raised e (Continue, vs)
      | Inr count \<Rightarrow>
        let keys = shortcuts;
            cs = count_string vs;
            vs = (if 48 \<le> k \<and> k < 257 then vs\<lparr>stack := stack vs @ [k]\<rparr> else vs)
        in if k \<in> REFRESH keys then
             (let vs = vs\<lparr>v_tty := clear (v_tty vs), v_scr := get_size winsz\<rparr>
              in case set_layout eng (v_scr vs) None (v_doc vs) of
                   Inl e \<Rightarrow> Raised e (Continue, vs)
                 | Inr d \<Rightarrow> Returned (Continue, vs\<lparr>v_doc := mark_all_pages_stale d\<rparr>))
           else if k = 27 then Returned (Continue, reset vs)
           else if 48 \<le> k \<and> k < 58 then
             Returned (Continue, vs\<lparr>count_string := cs @ [char_of (nat k)]\<rparr>)
           else if k \<in> QUIT keys then Raised SystemExit (Continue, vs)
           else if k \<in> GOTO_PAGE keys then
             (let p = (if cs = [] then page_to_logical (Some (pages (v_doc vs))) (v_doc vs) else count)
              in Returned (Continue, reset (vs\<lparr>v_doc := goto_logical_page p (v_doc vs)\<rparr>)))
           else if k \<in> NEXT_PAGE keys then
             Returned (Continue, reset (vs\<lparr>v_doc := next_page count (v_doc vs)\<rparr>))
           else if k \<in> PREV_PAGE keys then
             Returned (Continue, reset (vs\<lparr>v_doc := prev_page count (v_doc vs)\<rparr>))
           else if k \<in> NEXT_CHAP keys then
             Returned (Continue, reset (vs\<lparr>v_doc := next_chap count (v_doc vs)\<rparr>))
           else if k \<in> PREV_CHAP keys then
             Returned (Continue, reset (vs\<lparr>v_doc := prev_chap count (v_doc vs)\<rparr>))
           else if stack vs = [] then Raised IndexError (Continue, vs)
           else if hd (stack vs) \<in> GOTO keys \<and> k \<in> GOTO keys then
             Returned (Continue, reset (vs\<lparr>v_doc := goto_page 0 (v_doc vs)\<rparr>))
           else if k \<in> ROTATE_CW keys then
             Returned (Continue, reset (vs\<lparr>v_doc := mark_all_pages_stale
               ((v_doc vs)\<lparr>rotation := (rotation (v_doc vs) + 90 * count) mod 360\<rparr>)\<rparr>))
           else if k \<in> ROTATE_CCW keys then
             Returned (Continue, reset (vs\<lparr>v_doc := mark_all_pages_stale
               ((v_doc vs)\<lparr>rotation := (rotation (v_doc vs) - 90 * count) mod 360\<rparr>)\<rparr>))
           else if k \<in> TOGGLE_AUTOCROP keys then
             Returned (Continue, reset (vs\<lparr>v_doc := mark_all_pages_stale
               ((v_doc vs)\<lparr>autocrop := \<not> autocrop (v_doc vs)\<rparr>)\<rparr>))
           else if k \<in> TOGGLE_ALPHA keys then
             Returned (Continue, reset (vs\<lparr>v_doc := mark_all_pages_stale
               ((v_doc vs)\<lparr>alpha := \<not> alpha (v_doc vs)\<rparr>)\<rparr>))
           else if k \<in> TOGGLE_INVERT keys then
             Returned (Continue, reset (vs\<lparr>v_doc := mark_all_pages_stale
               ((v_doc vs)\<lparr>invert := \<not> invert (v_doc vs)\<rparr>)\<rparr>))
           else if k \<in> TOGGLE_TINT keys then
             Returned (Continue, reset (vs\<lparr>v_doc := mark_all_pages_stale
               ((v_doc vs)\<lparr>tint := \<not> tint (v_doc vs)\<rparr>)\<rparr>))
           else if k \<in> SHOW_TOC keys then Returned (Show_toc, reset vs)
           else if k \<in> SHOW_META keys then Returned (Show_meta, reset vs)
           else if k \<in> SHOW_URLS keys then Returned (Show_urls, reset vs)
           else if k \<in> TOGGLE_TEXT_MODE keys then Returned (View_text, reset vs)
           else if k \<in> INC_FONT keys then
             (case set_layout eng (v_scr vs) (Some (fontsize (v_doc vs) + count * 2)) (v_doc vs) of
                Inl e \<Rightarrow> Raised e (Continue, vs)
              | Inr d \<Rightarrow> Returned (Continue, reset (vs\<lparr>v_doc := mark_all_pages_stale d\<rparr>)))
           else if k \<in> DEC_FONT keys then
             (case set_layout eng (v_scr vs) (Some (fontsize (v_doc vs) - count * 2)) (v_doc vs) of
                Inl e \<Rightarrow> Raised e (Continue, vs)
              | Inr d \<Rightarrow> Returned (Continue, reset (vs\<lparr>v_doc := mark_all_pages_stale d\<rparr>)))
           else if k \<in> VISUAL_MODE keys then Returned (Visual_mode, reset vs)
           else if k \<in> SEND_NOTE keys then Returned (Send_note, reset vs)
           else Returned (Continue, vs))"

text \<open>
  One whole round: \<^verbatim>\<open>doc.display_page(scr, doc.page)\<close>, then the key. The state
  \<^verbatim>\<open>view\<close> starts from (lines 1087 to 1095). The loop over the keys pressed, as far as
  it stays in \<^verbatim>\<open>view\<close> itself.
\<close>

definition view_round ::
  "engine \<Rightarrow> int \<times> int \<times> int \<times> int \<Rightarrow> int \<Rightarrow> view_state \<Rightarrow> (control \<times> view_state) outcome" where
  "view_round eng winsz k vs =
     (case display_page eng (v_scr vs) (page (v_doc vs)) True (v_doc vs, v_tty vs) of
        Returned (d, t) \<Rightarrow> view_key eng winsz k (vs\<lparr>v_doc := d, v_tty := t\<rparr>)
      | Raised e (d, t) \<Rightarrow> Raised e (Continue, vs\<lparr>v_doc := d, v_tty := t\<rparr>)
      | Blocked (d, t) \<Rightarrow> Blocked (Continue, vs\<lparr>v_doc := d, v_tty := t\<rparr>))"

definition view_init :: "int \<times> int \<times> int \<times> int \<Rightarrow> document \<Rightarrow> io \<Rightarrow> view_state" where
  "view_init winsz d t = \<lparr>v_doc = d, v_scr = get_size winsz, v_tty = t, count_string = [], stack = [0]\<rparr>"

fun view_rounds ::
  "engine \<Rightarrow> int \<times> int \<times> int \<times> int \<Rightarrow> int list \<Rightarrow> view_state \<Rightarrow> (control \<times> view_state) outcome" where
  "view_rounds eng winsz [] vs = Returned (Continue, vs)"
| "view_rounds eng winsz (k # rest) vs =
     (case view_round eng winsz k vs of
        Returned (Continue, vs') \<Rightarrow> view_rounds eng winsz rest vs'
      | other \<Rightarrow> other)"

text \<open>
  What holds of the two loop variables whenever a key is read: the count prefix is made
  of digits, and the stack begins with the 0 it was initialised with (keys are only
  appended to it).
\<close>

definition view_inv :: "view_state \<Rightarrow> bool" where
  "view_inv vs = (list_all is_digit (count_string vs) \<and> stack vs \<noteq> [] \<and> hd (stack vs) = 0)"

subsection \<open>The overlay list browsers (\<^verbatim>\<open>show_toc\<close>, \<^verbatim>\<open>show_meta\<close>, \<^verbatim>\<open>show_urls\<close>)\<close>

text \<open>
  The variables of an overlay function: the document, the screen and the streams it
  works on, the selected \<^verbatim>\<open>index\<close>, the scroll offset \<^verbatim>\<open>j\<close> and the window height
  \<^verbatim>\<open>h\<close>, taken once from \<^verbatim>\<open>init_pad\<close> (a later call of \<^verbatim>\<open>init_pad\<close> discards
  its result). The list shown (\<^verbatim>\<open>toc\<close>, \<^verbatim>\<open>meta\<close>, \<^verbatim>\<open>urls\<close>) is read once on entry
  and is a parameter of the functions below.
\<close>

record overlay_state =
  o_doc :: document
  o_scr :: screen
  o_tty :: io
  o_index :: int
  o_j :: int
  o_h :: int

text \<open>After a key the overlay either stays open or returns to \<^verbatim>\<open>view\<close>.\<close>

datatype overlay_step = Stay overlay_state | Leave overlay_state

text \<open>The two \<^verbatim>\<open>if\<close> statements that end each round of the loop.\<close>

definition scroll :: "overlay_state \<Rightarrow> overlay_state" where
  "scroll s =
     (let s = (if o_index s > o_j s + (o_h s - 5) then s\<lparr>o_j := o_j s + 1\<rparr> else s)
      in if o_index s < o_j s then s\<lparr>o_j := o_j s - 1\<rparr> else s)"

text \<open>The \<^verbatim>\<open>REFRESH\<close> branch, the same in the three functions.\<close>

definition overlay_refresh ::
  "engine \<Rightarrow> int \<times> int \<times> int \<times> int \<Rightarrow> overlay_state \<Rightarrow> overlay_step outcome" where
  "overlay_refresh eng winsz s =
     (let s = s\<lparr>o_tty := clear (o_tty s), o_scr := get_size winsz\<rparr>
      in case set_layout eng (o_scr s) None (o_doc s) of
           Inl e \<Rightarrow> Raised e (Stay s)
         | Inr d \<Rightarrow> Returned (Stay (scroll (s\<lparr>o_doc := mark_all_pages_stale d\<rparr>))))"

text \<open>
  Entering an overlay (lines 393 to 418 for the table of contents): nothing happens for
  an empty list; otherwise the current page is marked stale and cleared, the screen is
  cleared and the selection starts at \<open>start\<close>. \<^verbatim>\<open>create_text_win\<close> makes the window
  \<^verbatim>\<open>rows - 2\<close> lines high.
\<close>

definition overlay_enter ::
  "nat \<Rightarrow> int \<Rightarrow> document \<Rightarrow> screen \<Rightarrow> io \<Rightarrow> overlay_state option outcome" where
  "overlay_enter len start d sc t =
     (if len = 0 then Returned None
      else case index_of (page_states d) (page d) of
             Inl e \<Rightarrow> Raised e None
           | Inr i \<Rightarrow>
               Returned (Some
                 \<lparr>o_doc = set_state i (\<lambda>s. s\<lparr>stale := True\<rparr>) d, o_scr = sc,
                  o_tty = clear (clear_page (page d) t),
                  o_index = start, o_j = 0, o_h = rows sc - 2\<rparr>))"

definition show_toc_enter :: "document \<Rightarrow> screen \<Rightarrow> io \<Rightarrow> overlay_state option outcome" where
  "show_toc_enter d sc t = overlay_enter (length (getToC d)) (current_chap d) d sc t"

text \<open>
  \<^verbatim>\<open>show_meta\<close> and \<^verbatim>\<open>show_urls\<close> start at index 0; the latter lists the links
  of the page that satisfy \<^verbatim>\<open>0 < link['kind'] < 3\<close>.
\<close>

definition show_meta_enter ::
  "(string \<times> string) list \<Rightarrow> document \<Rightarrow> screen \<Rightarrow> io \<Rightarrow> overlay_state option outcome" where
  "show_meta_enter meta d sc t = overlay_enter (length meta) 0 d sc t"

text \<open>One round of the loop of \<^verbatim>\<open>show_toc\<close> (lines 420 to 451) after the key \<open>k\<close>.\<close>

definition show_toc_key ::
  "engine \<Rightarrow> int \<times> int \<times> int \<times> int \<Rightarrow> (int \<times> string \<times> int) list \<Rightarrow> int \<Rightarrow> overlay_state
     \<Rightarrow> overlay_step outcome" where
  "show_toc_key eng winsz toc k s =
     (let keys = shortcuts
      in if k \<in> REFRESH keys then overlay_refresh eng winsz s
         else if k \<in> QUIT keys then Raised SystemExit (Stay s)
         else if k = 27 \<or> k \<in> SHOW_TOC keys then Returned (Leave (s\<lparr>o_tty := clear (o_tty s)\<rparr>))
         else if k \<in> NEXT_PAGE keys then
           Returned (Stay (scroll (s\<lparr>o_index := min (int (length toc) - 1) (o_index s + 1)\<rparr>)))
         else if k \<in> PREV_PAGE keys then
           Returned (Stay (scroll (s\<lparr>o_index := max 0 (o_index s - 1)\<rparr>)))
         else if k \<in> OPEN keys then
           (let s = s\<lparr>o_tty := clear (o_tty s)\<rparr>
            in case subscript toc (o_index s) of
                 Inl e \<Rightarrow> Raised e (Stay s)
               | Inr ch \<Rightarrow> Returned (Leave (s\<lparr>o_doc := goto_page (snd (snd ch) - 1) (o_doc s)\<rparr>)))
         else Returned (Stay (scroll s)))"

text \<open>
  \<^verbatim>\<open>show_meta\<close>, over the entries of \<^verbatim>\<open>self.metadata\<close>; its \<^verbatim>\<open>OPEN\<close> branch is
  \<^verbatim>\<open>pass\<close>.
\<close>

definition show_meta_key ::
  "engine \<Rightarrow> int \<times> int \<times> int \<times> int \<Rightarrow> (string \<times> string) list \<Rightarrow> int \<Rightarrow> overlay_state
     \<Rightarrow> overlay_step outcome" where
  "show_meta_key eng winsz meta k s =
     (let keys = shortcuts
      in if k \<in> REFRESH keys then overlay_refresh eng winsz s
         else if k \<in> QUIT keys then Raised SystemExit (Stay s)
         else if k = 27 \<or> k \<in> SHOW_META keys then Returned (Leave (s\<lparr>o_tty := clear (o_tty s)\<rparr>))
         else if k \<in> NEXT_PAGE keys then
           Returned (Stay (scroll (s\<lparr>o_index := min (int (length meta) - 1) (o_index s + 1)\<rparr>)))
         else if k \<in> PREV_PAGE keys then
           Returned (Stay (scroll (s\<lparr>o_index := max 0 (o_index s - 1)\<rparr>)))
         else Returned (Stay (scroll s)))"

text \<open>
  \<^verbatim>\<open>show_urls\<close>, over the links of the page whose kind is 1 or 2. \<^verbatim>\<open>goto_link\<close>
  jumps to the page of an internal link and hands a URI to the browser, which is outside
  the viewer.
\<close>

record link =
  kind :: int
  link_page :: int
  uri :: string

definition goto_link :: "link \<Rightarrow> document \<Rightarrow> document" where
  "goto_link l d =
     (if kind l = 0 then d
      else if kind l = 1 then goto_page (link_page l) d
      else d)"

definition show_urls_enter ::
  "link list \<Rightarrow> document \<Rightarrow> screen \<Rightarrow> io \<Rightarrow> overlay_state option outcome" where
  "show_urls_enter links d sc t =
     (let urls = filter (\<lambda>l. 0 < kind l \<and> kind l < 3) links
      in overlay_enter (length urls) 0 d sc t)"

definition show_urls_key ::
  "engine \<Rightarrow> int \<times> int \<times> int \<times> int \<Rightarrow> link list \<Rightarrow> int \<Rightarrow> overlay_state
     \<Rightarrow> overlay_step outcome" where
  "show_urls_key eng winsz urls k s =
     (let keys = shortcuts
      in if k \<in> REFRESH keys then overlay_refresh eng winsz s
         else if k \<in> QUIT keys then Raised SystemExit (Stay s)
         else if k = 27 \<or> k \<in> SHOW_URLS keys then Returned (Leave (s\<lparr>o_tty := clear (o_tty s)\<rparr>))
         else if k \<in> NEXT_PAGE keys then
           Returned (Stay (scroll (s\<lparr>o_index := min (int (length urls) - 1) (o_index s + 1)\<rparr>)))
         else if k \<in> PREV_PAGE keys then
           Returned (Stay (scroll (s\<lparr>o_index := max 0 (o_index s - 1)\<rparr>)))
         else if k \<in> OPEN keys then
           (case subscript urls (o_index s) of
              Inl e \<Rightarrow> Raised e (Stay s)
            | Inr l \<Rightarrow>
                Returned (Leave (s\<lparr>o_doc := goto_link l (o_doc s), o_tty := clear (o_tty s)\<rparr>)))
         else Returned (Stay (scroll s)))"

text \<open>The loop of an overlay over the keys pressed, until it returns or raises.\<close>

fun overlay_keys ::
  "(int \<Rightarrow> overlay_state \<Rightarrow> overlay_step outcome) \<Rightarrow> int list \<Rightarrow> overlay_state
     \<Rightarrow> overlay_step outcome" where
  "overlay_keys on_key [] s = Returned (Stay s)"
| "overlay_keys on_key (k # ks) s =
     (case on_key k s of
        Returned (Stay s') \<Rightarrow> overlay_keys on_key ks s'
      | other \<Rightarrow> other)"

subsection \<open>Example data\<close>

definition toc3 :: "(int \<times> string \<times> int) list" where
  "toc3 = [(1, ''One'', 1), (1, ''Two'', 4), (1, ''Three'', 8)]"

text \<open>
  A stand-in engine: every page is 600 by 800 points, a pixmap is two pixels with six
  sample bytes, compression prepends one byte and the encoding appends two.
\<close>

definition ex_engine :: engine where
  "ex_engine =
     \<lparr>page_bound = (\<lambda>p cm. (600, 800)),
      getPixmap = (\<lambda>p cm fac rot a. \<lparr>pix_width = 2, pix_height = 1, samples = ''abcdef''\<rparr>),
      invertIRect = (\<lambda>pix. pix),
      tintWith = (\<lambda>r g b pix. pix),
      getColor = (\<lambda>name. (1, 1 / 2, 1 / 4)),
      compress = (\<lambda>s. CHR ''z'' # s),
      standard_b64encode = (\<lambda>s. s @ ''==''),
      layout = (\<lambda>w h f x. x)\<rparr>"

text \<open>A terminal of 24 rows and 80 columns, 800 by 480 pixels.\<close>

definition ex_screen :: screen where
  "ex_screen = get_size (24, 80, 800, 480)"

text \<open>The terminal's replies to a display command: success and failure.\<close>

definition resp_ok :: string where
  "resp_ok = [char_of (27::nat)] @ ''_Gi=1;OK'' @ ST"

definition resp_fail :: string where
  "resp_fail = [char_of (27::nat)] @ ''_Gi=1;ENOENT'' @ ST"

definition io0 :: "string \<Rightarrow> io" where
  "io0 input = \<lparr>stdout = [], stdin = input, rendered = []\<rparr>"

text \<open>
  A two-page PDF just opened, the terminal about to answer \<^verbatim>\<open>OK\<close> to three display
  commands; and the state after page 0 has been displayed once.
\<close>

definition opened :: "document \<times> io" where
  "opened = (Document 2 True [], io0 (resp_ok @ resp_ok @ resp_ok))"

definition shown_once :: "document \<times> io" where
  "shown_once = final (display_page ex_engine ex_screen 0 True opened)"

text \<open>
  The main loop about to read a key with page 0 on display; the main loop on page 3 of
  a ten-page document; the table of contents overlay as entered on page 0 of that
  document.
\<close>

definition view0 :: view_state where
  "view0 = view_init (24, 80, 800, 480) (fst shown_once) (snd shown_once)"

definition view_page3 :: view_state where
  "view_page3 =
     view_init (24, 80, 800, 480) (goto_page 3 (Document 10 True toc3)) (io0 (resp_ok @ resp_ok))"

definition toc_start :: overlay_state where
  "toc_start =
     \<lparr>o_doc = set_state 0 (\<lambda>s. s\<lparr>stale := True\<rparr>) (Document 10 True toc3),
      o_scr = ex_screen,
      o_tty = clear (clear_page 0 (io0 [])),
      o_index = 0, o_j = 0, o_h = 22\<rparr>"

section \<open>Verified properties\<close>

subsection \<open>Page navigation\<close>

lemma goto_page_page:
  "page (goto_page p d) = (if p > pages d then pages d else if p < 0 then 0 else p)"
  by (simp add: goto_page_def Let_def)


lemma open_document_pages: "pages (open_document count pdf toc os) = count - 1"
  by (simp add: open_document_def Document_def goto_page_def Let_def split: option.splits)

lemma open_document_offset:
  "first_page_offset (open_document count pdf toc os) =
     (case opt_first_page_offset os of Some f \<Rightarrow> f | None \<Rightarrow> 1)"
  by (simp add: open_document_def Document_def goto_page_def Let_def split: option.splits)

text \<open>
  C6. A 10-page document opened with \<^verbatim>\<open>--first-page 5\<close> (whatever the other
  options) has last physical index 9; requesting logical page 5 makes physical page 0
  current and requesting logical page 14 makes physical page 9, the last page, current.
  Results outside the document are clamped by \<^verbatim>\<open>goto_page\<close>: logical page 15 also
  ends on page 9 and logical page 4 on page 0.
\<close>

theorem first_page_5_scenario:
  "pages (open_document 10 pdf toc \<lparr>opt_page = pg, opt_first_page_offset = Some 5, opt_key = k\<rparr>) = 9 \<and>
   page (goto_logical_page 5
     (open_document 10 pdf toc \<lparr>opt_page = pg, opt_first_page_offset = Some 5, opt_key = k\<rparr>)) = 0 \<and>
   page (goto_logical_page 14
     (open_document 10 pdf toc \<lparr>opt_page = pg, opt_first_page_offset = Some 5, opt_key = k\<rparr>)) = 9 \<and>
   page (goto_logical_page 15
     (open_document 10 pdf toc \<lparr>opt_page = pg, opt_first_page_offset = Some 5, opt_key = k\<rparr>)) = 9 \<and>
   page (goto_logical_page 4
     (open_document 10 pdf toc \<lparr>opt_page = pg, opt_first_page_offset = Some 5, opt_key = k\<rparr>)) = 0"
  by (simp add: goto_logical_page_def logical_to_page_def goto_page_page
      open_document_pages open_document_offset)



subsection \<open>Chapter navigation\<close>

lemma subscript_past_end: "int (length xs) \<le> n \<Longrightarrow> subscript xs n = Inl IndexError"
  by (simp add: subscript_def index_of_def)

lemma chapter_goto_page: "chapter_idx (goto_page p d) = chapter_idx d"
  by (simp add: goto_page_def Let_def)

lemma chapter_goto_chap:
  "chapter_idx (goto_chap n d) =
     (if n > int (length (getToC d)) then int (length (getToC d)) else if n < 0 then 0 else n)"
  by (simp add: goto_chap_def Let_def chapter_goto_page split: sum.splits prod.splits)

lemma goto_chap_ge:
  assumes "int (length (getToC d)) \<le> n"
  shows "goto_chap n d = goto_page 0 (d\<lparr>chapter_idx := int (length (getToC d))\<rparr>)"
proof (cases "int (length (getToC d)) < n")
  case True
  then show ?thesis
    by (simp add: goto_chap_def Let_def subscript_past_end)
next
  case False
  with assms have "n = int (length (getToC d))" by simp
  then show ?thesis
    by (simp add: goto_chap_def Let_def subscript_past_end)
qed

text \<open>
  C10. \<^verbatim>\<open>goto_chap\<close> clamps its argument to at most \<^verbatim>\<open>len(toc)\<close>, one past the
  last index of the table of contents. For that value, and for every argument when the
  table of contents is empty, the lookup \<^verbatim>\<open>toc[n]\<close> fails and the \<^verbatim>\<open>except\<close> branch
  goes to physical page 0; so does \<^verbatim>\<open>next_chap\<close> once it steps past the last entry.
  \<^verbatim>\<open>goto_chap\<close> returns a document in every case: no exception leaves it. (The document
  has at least one page.)
\<close>

theorem goto_chap_past_end:
  assumes "0 \<le> pages d"
  shows "chapter_idx (goto_chap n d) \<le> int (length (getToC d)) \<and>
     (int (length (getToC d)) \<le> n \<longrightarrow>
        goto_chap n d = goto_page 0 (d\<lparr>chapter_idx := int (length (getToC d))\<rparr>) \<and>
        chapter_idx (goto_chap n d) = int (length (getToC d)) \<and> page (goto_chap n d) = 0) \<and>
     (getToC d = [] \<longrightarrow> page (goto_chap n d) = 0) \<and>
     (int (length (getToC d)) \<le> chapter_idx d + count \<longrightarrow> page (next_chap count d) = 0)"
proof -
  have past: "page (goto_chap m d) = 0" if "int (length (getToC d)) \<le> m" for m
    using assms that by (simp add: goto_chap_ge goto_page_page)
  have empty: "page (goto_chap n d) = 0" if "getToC d = []"
  proof (cases "0 \<le> n")
    case True
    with that show ?thesis by (simp add: past)
  next
    case False
    with that assms show ?thesis
      by (simp add: goto_chap_def Let_def subscript_def index_of_def goto_page_page)
  qed
  have c1: "chapter_idx (goto_chap n d) \<le> int (length (getToC d))"
    by (simp add: chapter_goto_chap)
  have c2: "chapter_idx (goto_chap n d) = int (length (getToC d))"
    if "int (length (getToC d)) \<le> n"
    using that by (simp add: chapter_goto_chap)
  have c3: "page (next_chap count d) = 0" if "int (length (getToC d)) \<le> chapter_idx d + count"
    using that by (simp add: next_chap_def past)
  show ?thesis
    using past [of n] empty c1 c2 c3 goto_chap_ge [of d n] by blast
qed

theorem goto_chap_past_end_witness:
  "page (goto_page 7 (Document 10 True toc3)) = 7 \<and>
   page (goto_chap 3 (goto_page 7 (Document 10 True toc3))) = 0 \<and>
   chapter_idx (goto_chap 3 (goto_page 7 (Document 10 True toc3))) = 3 \<and>
   page (next_chap 5 (goto_page 7 (Document 10 True toc3))) = 0"
proof -
  let ?d = "goto_page 7 (Document 10 True toc3)"
  have p: "0 \<le> pages ?d"
    by (simp add: goto_page_def Document_def Let_def)
  have l: "int (length (getToC ?d)) = 3" and g: "page ?d = 7"
    by (simp_all add: goto_page_def Document_def Let_def toc3_def)
  have i: "int (length (getToC ?d)) \<le> 3" and j: "int (length (getToC ?d)) \<le> chapter_idx ?d + 5"
    by (simp_all add: goto_page_def Document_def Let_def toc3_def)
  from goto_chap_past_end [OF p, of 3 5] i j
  have "page (goto_chap 3 ?d) = 0 \<and> chapter_idx (goto_chap 3 ?d) = int (length (getToC ?d)) \<and>
        page (next_chap 5 ?d) = 0"
    by blast
  with g l show ?thesis by simp
qed

subsection \<open>Chunked transfer\<close>

lemma upt_0_Suc_map: "[0..<Suc n] = 0 # map Suc [0..<n]"
  by (simp add: upt_conv_Cons map_Suc_upt del: upt_Suc)

lemma ceil_div_step:
  fixes l c :: nat
  assumes "0 < c" and "0 < l"
  shows "(l + (c - 1)) div c = Suc ((l - c + (c - 1)) div c)"
proof (cases "c \<le> l")
  case True
  then have e: "l + (c - 1) = (l - c + (c - 1)) + c" using assms by linarith
  have "(l + (c - 1)) div c = ((l - c + (c - 1)) + c) div c" by (simp only: e)
  also have "\<dots> = Suc ((l - c + (c - 1)) div c)" using assms(1) by (simp only: div_add_self2)
  finally show ?thesis .
next
  case False
  then have a: "l - c + (c - 1) = c - 1" and b: "l + (c - 1) = (l - 1) + c" and d: "l - 1 < c"
    using assms by linarith+
  have "(l + (c - 1)) div c = ((l - 1) + c) div c" by (simp only: b)
  also have "\<dots> = Suc ((l - 1) div c)" using assms(1) by (simp only: div_add_self2)
  also have "(l - 1) div c = 0" using d by (rule div_less)
  finally have x: "(l + (c - 1)) div c = Suc 0" .
  have "(c - 1) div c = 0" using assms(1) by (intro div_less) linarith
  with x a show ?thesis by (simp only:)
qed

lemma flag_shift:
  fixes l c i :: nat
  shows "c * (i + 1) < l - c \<longleftrightarrow> c * (Suc i + 1) < l"
proof -
  have "c * (Suc i + 1) = c * (i + 1) + c" by (simp add: algebra_simps)
  then show ?thesis by linarith
qed


lemma write_chunks_frames_gen:
  assumes c: "c = (4096::nat)"
  shows "write_chunks cmd data t =
     t\<lparr>stdout := stdout t @
        map (\<lambda>i. Gr_frame
               (if i = 0 then AList.update ''m'' (Num (if c * (i + 1) < length data then 1 else 0)) cmd
                else [(''m'', Num (if c * (i + 1) < length data then 1 else 0))])
               (take c (drop (c * i) data)))
          [0..<(length data + (c - 1)) div c]\<rparr>"
proof (induction cmd data t rule: write_chunks.induct)
  case (1 cmd data t)
  have cpos: "0 < c" using c by simp
  note eq = write_chunks.simps [of cmd data t, folded c]
  show ?case
  proof (cases "data = []")
    case True
    have "(c - 1) div c = 0" using cpos by (intro div_less) linarith
    then show ?thesis by (subst eq) (simp add: True)
  next
    case False
    then have pos: "0 < length data" by simp
    note n = ceil_div_step [OF cpos pos]
    note ih = "1.IH" [OF False, folded c]
    have d0: "(drop c data \<noteq> []) = (c < length data)" by auto
    have dd: "drop (c * i) (drop c data) = drop (c * Suc i) data" for i
      by (simp add: add.commute)
    show ?thesis
      apply (subst eq)
      apply (simp only: False if_False)
      apply (subst ih)
      apply (simp only: length_drop n upt_0_Suc_map list.map map_map comp_def dd flag_shift)
      apply (simp add: write_gr_cmd_def serialize_gr_command_def d0 del: upt_Suc)
      done
  qed
qed

lemma ceil_div_nat:
  fixes l c :: nat
  assumes c: "0 < c"
  shows "nat \<lceil>rat_of_nat l / rat_of_nat c\<rceil> = (l + (c - 1)) div c"
proof -
  define q where "q = (l + (c - 1)) div c"
  have A: "c * q \<le> l + (c - 1)" unfolding q_def by (rule times_div_less_eq_dividend)
  have B: "l + (c - 1) < c + c * q" unfolding q_def using c by (rule dividend_less_times_div)
  from B c have up: "l \<le> q * c" by (simp add: mult.commute)
  from A c have lo: "q * c < l + c" by (simp add: mult.commute)
  have cr: "(0::rat) < of_nat c" using c by simp
  have "rat_of_nat l \<le> of_nat (q * c)" using up by (simp only: of_nat_le_iff)
  then have u: "rat_of_nat l / of_nat c \<le> of_int (int q)"
    using cr by (simp add: pos_divide_le_eq)
  have "rat_of_nat (q * c) < of_nat (l + c)" using lo by (simp only: of_nat_less_iff)
  then have "(rat_of_nat q - 1) * of_nat c < of_nat l"
    by (simp add: algebra_simps)
  then have d: "of_int (int q) - 1 < rat_of_nat l / of_nat c"
    using cr by (simp add: pos_less_divide_eq)
  have "\<lceil>rat_of_nat l / of_nat c\<rceil> = int q"
    using d u by (rule ceiling_unique)
  then show ?thesis by (simp add: q_def)
qed


lemma below_chunk_count:
  fixes l c k :: nat
  assumes "0 < c"
  shows "k < (l + (c - 1)) div c \<longleftrightarrow> c * k < l"
proof -
  have "k < (l + (c - 1)) div c \<longleftrightarrow> Suc k \<le> (l + (c - 1)) div c" by (simp only: Suc_le_eq)
  also have "\<dots> \<longleftrightarrow> Suc k * c \<le> l + (c - 1)"
    using assms by (simp only: less_eq_div_iff_mult_less_eq)
  also have "\<dots> \<longleftrightarrow> c * k < l"
    using assms by (simp add: mult.commute) linarith
  finally show ?thesis .
qed

lemma write_chunks_frames:
  "write_chunks cmd data t =
     t\<lparr>stdout := stdout t @
        map (\<lambda>i. Gr_frame
               (if i = 0
                then AList.update ''m''
                       (Num (if i + 1 = nat \<lceil>rat_of_nat (length data) / 4096\<rceil> then 0 else 1)) cmd
                else [(''m'', Num (if i + 1 = nat \<lceil>rat_of_nat (length data) / 4096\<rceil> then 0 else 1))])
               (take 4096 (drop (4096 * i) data)))
          [0..<nat \<lceil>rat_of_nat (length data) / 4096\<rceil>]\<rparr>"
proof -
  define c :: nat where "c = 4096"
  define n where "n = (length data + (c - 1)) div c"
  have cpos: "0 < c" by (simp add: c_def)
  have n: "nat \<lceil>rat_of_nat (length data) / 4096\<rceil> = n"
    using ceil_div_nat [OF cpos, of "length data"] by (simp add: n_def c_def)
  have flag: "(if c * (i + 1) < length data then 1 else 0) = (if i + 1 = n then 0 else (1::int))"
    if "i < n" for i
  proof -
    have "(c * (i + 1) < length data) = (i + 1 < n)"
      unfolding n_def by (simp only: below_chunk_count [OF cpos])
    with that show ?thesis by auto
  qed
  have h: "map (\<lambda>i. Gr_frame
               (if i = 0 then AList.update ''m'' (Num (if c * (i + 1) < length data then 1 else 0)) cmd
                else [(''m'', Num (if c * (i + 1) < length data then 1 else 0))])
               (take c (drop (c * i) data))) [0..<n] =
        map (\<lambda>i. Gr_frame
               (if i = 0 then AList.update ''m'' (Num (if i + 1 = n then 0 else 1)) cmd
                else [(''m'', Num (if i + 1 = n then 0 else 1))])
               (take c (drop (c * i) data))) [0..<n]"
  proof (rule map_cong [OF refl])
    fix i assume "i \<in> set [0..<n]"
    then have "i < n" by simp
    from flag [OF this]
    show "Gr_frame
           (if i = 0 then AList.update ''m'' (Num (if c * (i + 1) < length data then 1 else 0)) cmd
            else [(''m'', Num (if c * (i + 1) < length data then 1 else 0))])
           (take c (drop (c * i) data)) =
          Gr_frame
           (if i = 0 then AList.update ''m'' (Num (if i + 1 = n then 0 else 1)) cmd
            else [(''m'', Num (if i + 1 = n then 0 else 1))])
           (take c (drop (c * i) data))"
      by (simp only:)
  qed
  note g = write_chunks_frames_gen [OF c_def, of cmd data t, folded n_def]
  show ?thesis
    unfolding n c_def [symmetric] by (simp only: g h)
qed


text \<open>
  C4. \<^verbatim>\<open>write_chunked\<close>, for a command that has a format key \<open>f\<close>: let \<open>enc\<close> be
  the base64 encoding of the payload, compressed first unless \<open>f\<close> is 100, and \<open>n\<close> the
  ceiling of its length over 4096. The call writes exactly \<open>n\<close> frames and nothing else;
  frame \<open>i\<close> carries the \<open>i\<close>-th slice of 4096 encoded bytes; its flag \<open>m\<close> is 0 on the
  last frame and 1 on every other; the first frame carries the caller's descriptor keys
  (with the compression marker \<open>o=z\<close> when the payload was compressed) followed by
  \<open>m\<close>, and every later frame carries the key \<open>m\<close> alone.
\<close>

theorem write_chunked_frames:
  assumes "map_of cmd ''f'' = Some f"
  shows "let enc = standard_b64encode eng (if f \<noteq> Num 100 then compress eng data else data);
             desc = (if f \<noteq> Num 100 then AList.update ''o'' (Str ''z'') cmd else cmd);
             n = nat \<lceil>rat_of_nat (length enc) / 4096\<rceil>;
             m = (\<lambda>i. Num (if i + 1 = n then 0 else 1))
         in write_chunked eng cmd data t =
              Inr (t\<lparr>stdout := stdout t @
                     map (\<lambda>i. Gr_frame
                            (if i = 0 then AList.update ''m'' (m i) desc else [(''m'', m i)])
                            (take 4096 (drop (4096 * i) enc)))
                       [0..<n]\<rparr>)"
  using assms by (simp add: write_chunked_def Let_def write_chunks_frames)

theorem write_chunked_frames_witness:
  "write_chunked ex_engine
     [(''i'', Num 1), (''t'', Str ''d''), (''s'', Num 2), (''v'', Num 1), (''f'', Num 24)]
     (replicate 4097 CHR ''a'') (io0 []) =
   Inr \<lparr>stdout =
          [Gr_frame [(''i'', Num 1), (''t'', Str ''d''), (''s'', Num 2), (''v'', Num 1),
                     (''f'', Num 24), (''o'', Str ''z''), (''m'', Num 1)]
             (CHR ''z'' # replicate 4095 CHR ''a''),
           Gr_frame [(''m'', Num 0)] (replicate 2 CHR ''a'' @ ''=='')],
        stdin = [], rendered = []\<rparr>"
proof -
  let ?cmd = "[(''i'', Num 1), (''t'', Str ''d''), (''s'', Num 2), (''v'', Num 1), (''f'', Num 24)]"
  define enc where "enc = CHR ''z'' # replicate 4097 CHR ''a'' @ ''==''"
  have f: "map_of ?cmd ''f'' = Some (Num 24)"
    by simp
  have e: "standard_b64encode ex_engine
             (if Num 24 \<noteq> Num 100 then compress ex_engine (replicate 4097 CHR ''a'')
              else replicate 4097 CHR ''a'') = enc"
    by (simp add: ex_engine_def enc_def)
  have dsc: "(if Num 24 \<noteq> Num 100 then AList.update ''o'' (Str ''z'') ?cmd else ?cmd) =
             ?cmd @ [(''o'', Str ''z'')]"
    by simp
  have "\<lceil>(of_int 1025 :: rat) / of_int 1024\<rceil> = 2"
    by (simp only: ceiling_divide_eq_div)
  then have n: "nat \<lceil>rat_of_nat (length enc) / 4096\<rceil> = 2"
    by (simp add: enc_def)
  have u: "[0..<2] = [0, Suc 0]"
    by (simp add: numeral_2_eq_2)
  have c0: "take 4096 (drop (4096 * 0) enc) = CHR ''z'' # replicate 4095 CHR ''a''"
    by (simp add: enc_def)
  have c1: "take 4096 (drop (4096 * Suc 0) enc) = replicate 2 CHR ''a'' @ ''==''"
    by (simp add: enc_def)
  note w = write_chunked_frames [OF f, of ex_engine "replicate 4097 CHR ''a''" "io0 []",
      unfolded Let_def e dsc n u list.map c0 c1]
  then show ?thesis
    by (simp add: io0_def)
qed

subsection \<open>Displaying a page\<close>



lemma set_cursor_io [simp]:
  "rendered (set_cursor scr c r t) = rendered t"
  "stdin (set_cursor scr c r t) = stdin t"
  "length (stdout (set_cursor scr c r t)) = Suc (length (stdout t))"
  by (simp_all add: set_cursor_def Let_def)

lemma write_gr_cmd_io [simp]:
  "rendered (write_gr_cmd cmd pl t) = rendered t"
  "stdin (write_gr_cmd cmd pl t) = stdin t"
  "stdout (write_gr_cmd cmd pl t) = stdout t @ [Gr_frame cmd pl]"
  by (simp_all add: write_gr_cmd_def serialize_gr_command_def)

lemma clear_page_io [simp]:
  "rendered (clear_page q t) = rendered t"
  "stdin (clear_page q t) = stdin t"
  "stdout (clear_page q t) =
     stdout t @ [Gr_frame [(''a'', Str ''d''), (''d'', Str ''a''), (''i'', Num (q + 1))] []]"
  by (simp_all add: clear_page_def)


lemma set_state_fields [simp]:
  "length (page_states (set_state k f d)) = length (page_states d)"
  "prevpage (set_state k f d) = prevpage d"
  "autocrop (set_state k f d) = autocrop d"
  "isPDF (set_state k f d) = isPDF d"
  "rotation (set_state k f d) = rotation d"
  "alpha (set_state k f d) = alpha d"
  "invert (set_state k f d) = invert d"
  "tint (set_state k f d) = tint d"
  "tint_color (set_state k f d) = tint_color d"
  "page (set_state k f d) = page d"
  by (simp_all add: set_state_def)

lemma set_state_other [simp]:
  "j \<noteq> k \<Longrightarrow> page_states (set_state j f d) ! k = page_states d ! k"
  by (simp add: set_state_def)


lemma set_state_nth [simp]:
  "k < length (page_states d) \<Longrightarrow> page_states (set_state k f d) ! k = f (page_states d ! k)"
  by (simp add: set_state_def)

lemma set_state_derived [simp]:
  "crop_mode_of (set_state k f d) = crop_mode_of d"
  "page_size eng p (set_state k f d) = page_size eng p d"
  "render_page eng p cm fac (set_state k f d) = render_page eng p cm fac d"
  by (simp_all add: crop_mode_of_def page_size_def render_page_def Let_def)


















text \<open>
  Whenever the reply to the display command lacks \<^verbatim>\<open>OK\<close>, lines 376 to 387 end in
  the \<^verbatim>\<open>NameError\<close>, after the clear and the display command have been written.
\<close>

lemma show_page_failed:
  assumes "read_response [] (stdin t) = Some (resp, rest)" and "\<not> bytes_in ''OK'' resp"
  shows "show_page p k True d t =
           Raised NameError
             (set_state k (\<lambda>s. s\<lparr>stale := True\<rparr>) d,
              (write_gr_cmd [(''a'', Str ''p''), (''i'', Num (p + 1)), (''z'', Num (- 1))] []
                 (clear_page (prevpage d) t))\<lparr>stdin := rest\<rparr>)"
  using assms by (simp add: show_page_def write_gr_cmd_with_response_def Let_def)

text \<open>
  C1 does not hold of the code. Page 1 of a two-page PDF is displayed after page 0 and
  the terminal's reply to the display command lacks \<^verbatim>\<open>OK\<close>: the call does not return
  but raises \<^verbatim>\<open>NameError\<close> (the unbound name \<^verbatim>\<open>bar\<close>), and the command that
  clears the previous page has been written before the display command.
\<close>

theorem display_page_failed_response:
  "(case display_page ex_engine ex_screen 1 True (goto_page 1 (Document 2 True []), io0 resp_fail) of
      Raised e (d, t) \<Rightarrow>
        e = NameError \<and> stale (page_states d ! 1) \<and>
        stdout t =
          [Set_cursor 0 22,
           Gr_frame [(''i'', Num 2), (''t'', Str ''d''), (''s'', Num 2), (''v'', Num 1),
                     (''f'', Num 24), (''o'', Str ''z''), (''m'', Num 0)] ''zabcdef=='',
           Gr_frame [(''a'', Str ''d''), (''d'', Str ''a''), (''i'', Num 1)] [],
           Gr_frame [(''a'', Str ''p''), (''i'', Num 2), (''z'', Num (- 1))] []]
    | Returned w \<Rightarrow> False
    | Blocked w \<Rightarrow> False)"
  by code_simp

subsection \<open>The main loop and the overlays\<close>

lemmas key_defs = shortcuts_def ord_def KEY_DOWN_def KEY_UP_def KEY_LEFT_def KEY_RIGHT_def
  KEY_RESIZE_def KEY_ENTER_def

lemma count_of_digits: "list_all is_digit s \<Longrightarrow> \<exists>c. count_of s = Inr c"
  by (simp add: count_of_def int_of_str_def)

lemma mark_all_pages_stale_all:
  "list_all stale (page_states (mark_all_pages_stale d)) \<and>
   length (page_states (mark_all_pages_stale d)) = length (page_states d)"
  by (simp add: mark_all_pages_stale_def list_all_iff)

lemma mark_all_pages_stale_fields [simp]:
  "rotation (mark_all_pages_stale d) = rotation d"
  "autocrop (mark_all_pages_stale d) = autocrop d"
  "alpha (mark_all_pages_stale d) = alpha d"
  "invert (mark_all_pages_stale d) = invert d"
  "tint (mark_all_pages_stale d) = tint d"
  "page (mark_all_pages_stale d) = page d"
  by (simp_all add: mark_all_pages_stale_def)

lemma toggle_keys:
  "ROTATE_CW shortcuts \<union> ROTATE_CCW shortcuts \<union> TOGGLE_AUTOCROP shortcuts \<union>
   TOGGLE_ALPHA shortcuts \<union> TOGGLE_INVERT shortcuts \<union> TOGGLE_TINT shortcuts =
   {114, 82, 99, 97, 105, 100}"
  by (auto simp: key_defs)

text \<open>The six toggles, key by key.\<close>

lemma view_key_rotate_cw:
  assumes "count_of (count_string vs) = Inr count" and "stack vs \<noteq> []" and "hd (stack vs) = 0"
  shows "view_key eng winsz 114 vs =
     Returned (Continue, reset (vs\<lparr>stack := stack vs @ [114], v_doc := mark_all_pages_stale
       ((v_doc vs)\<lparr>rotation := (rotation (v_doc vs) + 90 * count) mod 360\<rparr>)\<rparr>))"
  using assms by (simp add: view_key_def Let_def key_defs)

lemma view_key_rotate_ccw:
  assumes "count_of (count_string vs) = Inr count" and "stack vs \<noteq> []" and "hd (stack vs) = 0"
  shows "view_key eng winsz 82 vs =
     Returned (Continue, reset (vs\<lparr>stack := stack vs @ [82], v_doc := mark_all_pages_stale
       ((v_doc vs)\<lparr>rotation := (rotation (v_doc vs) - 90 * count) mod 360\<rparr>)\<rparr>))"
  using assms by (simp add: view_key_def Let_def key_defs)

lemma view_key_autocrop:
  assumes "count_of (count_string vs) = Inr count" and "stack vs \<noteq> []" and "hd (stack vs) = 0"
  shows "view_key eng winsz 99 vs =
     Returned (Continue, reset (vs\<lparr>stack := stack vs @ [99], v_doc := mark_all_pages_stale
       ((v_doc vs)\<lparr>autocrop := \<not> autocrop (v_doc vs)\<rparr>)\<rparr>))"
  using assms by (simp add: view_key_def Let_def key_defs)

lemma view_key_alpha:
  assumes "count_of (count_string vs) = Inr count" and "stack vs \<noteq> []" and "hd (stack vs) = 0"
  shows "view_key eng winsz 97 vs =
     Returned (Continue, reset (vs\<lparr>stack := stack vs @ [97], v_doc := mark_all_pages_stale
       ((v_doc vs)\<lparr>alpha := \<not> alpha (v_doc vs)\<rparr>)\<rparr>))"
  using assms by (simp add: view_key_def Let_def key_defs)

lemma view_key_invert:
  assumes "count_of (count_string vs) = Inr count" and "stack vs \<noteq> []" and "hd (stack vs) = 0"
  shows "view_key eng winsz 105 vs =
     Returned (Continue, reset (vs\<lparr>stack := stack vs @ [105], v_doc := mark_all_pages_stale
       ((v_doc vs)\<lparr>invert := \<not> invert (v_doc vs)\<rparr>)\<rparr>))"
  using assms by (simp add: view_key_def Let_def key_defs)

lemma view_key_tint:
  assumes "count_of (count_string vs) = Inr count" and "stack vs \<noteq> []" and "hd (stack vs) = 0"
  shows "view_key eng winsz 100 vs =
     Returned (Continue, reset (vs\<lparr>stack := stack vs @ [100], v_doc := mark_all_pages_stale
       ((v_doc vs)\<lparr>tint := \<not> tint (v_doc vs)\<rparr>)\<rparr>))"
  using assms by (simp add: view_key_def Let_def key_defs)

lemma digit_key: "48 \<le> k \<Longrightarrow> k < 58 \<Longrightarrow> is_digit (char_of (nat k))"
proof -
  assume a: "48 \<le> k" "k < 58"
  then have "nat k mod 256 = nat k" by simp
  with a show ?thesis by (simp add: is_digit_def ord_def)
qed

lemma view_key_inv_case:
  assumes "view_inv vs"
  shows "case view_key eng winsz k vs of Returned (c, vs') \<Rightarrow> view_inv vs' | _ \<Rightarrow> True"
proof -
  from assms obtain count where c: "count_of (count_string vs) = Inr count"
    using count_of_digits by (auto simp: view_inv_def)
  from assms have i: "list_all is_digit (count_string vs)" "stack vs \<noteq> []" "hd (stack vs) = 0"
    by (simp_all add: view_inv_def)
  show ?thesis
    unfolding view_key_def
    by (simp add: c i Let_def view_inv_def reset_def digit_key split: sum.splits)
qed

lemma view_key_inv:
  assumes "view_inv vs" and "view_key eng winsz k vs = Returned (c, vs')"
  shows "view_inv vs'"
  using view_key_inv_case [OF assms(1), of eng winsz k] assms(2) by simp

lemma view_init_inv: "view_inv (view_init winsz d t)"
  by (simp add: view_inv_def view_init_def)

lemma view_key_g:
  assumes "view_inv vs"
  shows "view_key eng winsz 103 vs = Returned (Continue, vs\<lparr>stack := stack vs @ [103]\<rparr>)"
proof -
  from assms obtain count where "count_of (count_string vs) = Inr count"
    using count_of_digits by (auto simp: view_inv_def)
  then show ?thesis
    using assms by (simp add: view_key_def Let_def view_inv_def key_defs)
qed

text \<open>
  C2. Whenever the main loop reads one of the keys that rotate clockwise or
  counterclockwise or toggle autocrop, alpha, invert or tint, the round returns to the
  loop with every entry of \<^verbatim>\<open>page_states\<close> stale (and as many entries as before), so
  before the next \<^verbatim>\<open>display_page\<close> call; and the setting the key stands for, and only
  that one among the four toggles, has changed.
\<close>

theorem toggles_mark_all_stale:
  assumes "view_inv vs"
    and "k \<in> ROTATE_CW shortcuts \<union> ROTATE_CCW shortcuts \<union> TOGGLE_AUTOCROP shortcuts \<union>
             TOGGLE_ALPHA shortcuts \<union> TOGGLE_INVERT shortcuts \<union> TOGGLE_TINT shortcuts"
  shows "returned (view_key eng winsz k vs) \<and>
         fst (final (view_key eng winsz k vs)) = Continue \<and>
         list_all stale (page_states (v_doc (snd (final (view_key eng winsz k vs))))) \<and>
         length (page_states (v_doc (snd (final (view_key eng winsz k vs))))) =
           length (page_states (v_doc vs)) \<and>
         (autocrop (v_doc (snd (final (view_key eng winsz k vs)))) \<noteq> autocrop (v_doc vs)) =
           (k \<in> TOGGLE_AUTOCROP shortcuts) \<and>
         (alpha (v_doc (snd (final (view_key eng winsz k vs)))) \<noteq> alpha (v_doc vs)) =
           (k \<in> TOGGLE_ALPHA shortcuts) \<and>
         (invert (v_doc (snd (final (view_key eng winsz k vs)))) \<noteq> invert (v_doc vs)) =
           (k \<in> TOGGLE_INVERT shortcuts) \<and>
         (tint (v_doc (snd (final (view_key eng winsz k vs)))) \<noteq> tint (v_doc vs)) =
           (k \<in> TOGGLE_TINT shortcuts)"
proof -
  from assms(1) obtain count where c: "count_of (count_string vs) = Inr count"
    using count_of_digits by (auto simp: view_inv_def)
  from assms(1) have s: "stack vs \<noteq> []" "hd (stack vs) = 0"
    by (simp_all add: view_inv_def)
  note all = mark_all_pages_stale_all
  from assms(2) have "k \<in> {114, 82, 99, 97, 105, 100}"
    by (simp only: toggle_keys)
  then consider "k = 114" | "k = 82" | "k = 99" | "k = 97" | "k = 105" | "k = 100"
    by auto
  then show ?thesis
  proof cases
    case 1
    then show ?thesis
      by (simp add: view_key_rotate_cw [OF c s] reset_def all key_defs)
  next
    case 2
    then show ?thesis
      by (simp add: view_key_rotate_ccw [OF c s] reset_def all key_defs)
  next
    case 3
    then show ?thesis
      by (simp add: view_key_autocrop [OF c s] reset_def all key_defs)
  next
    case 4
    then show ?thesis
      by (simp add: view_key_alpha [OF c s] reset_def all key_defs)
  next
    case 5
    then show ?thesis
      by (simp add: view_key_invert [OF c s] reset_def all key_defs)
  next
    case 6
    then show ?thesis
      by (simp add: view_key_tint [OF c s] reset_def all key_defs)
  qed
qed


theorem toggles_mark_all_stale_witness:
  "\<not> list_all stale (page_states (v_doc view0)) \<and>
   list_all stale
     (page_states (v_doc (snd (final (view_key ex_engine (24, 80, 800, 480) (ord CHR ''r'') view0)))))"
proof -
  have i: "view_inv view0"
    by (simp add: view0_def view_init_inv)
  have k: "ord CHR ''r'' \<in> ROTATE_CW shortcuts \<union> ROTATE_CCW shortcuts \<union>
             TOGGLE_AUTOCROP shortcuts \<union> TOGGLE_ALPHA shortcuts \<union> TOGGLE_INVERT shortcuts \<union>
             TOGGLE_TINT shortcuts"
    by (simp add: key_defs)
  have n: "\<not> list_all stale (page_states (v_doc view0))"
    by code_simp
  from toggles_mark_all_stale [OF i k, of ex_engine "(24, 80, 800, 480)"] n
  show ?thesis by blast
qed

text \<open>
  C5 does not hold of the code. On page 3 of a ten-page document the key \<^verbatim>\<open>g\<close> is
  pressed twice in a row: both rounds return to the loop, the stack then holds the 0 it
  started with and the two keys, and the current page is still 3. The chord test reads
  \<^verbatim>\<open>stack[0]\<close>, which is that 0 for as long as the loop runs (\<open>view_key_inv\<close>), so
  the branch is never taken (\<open>view_key_g\<close>).
\<close>

theorem gg_does_not_go_to_start:
  "page (v_doc view_page3) = 3 \<and>
   (case view_rounds ex_engine (24, 80, 800, 480) [ord CHR ''g'', ord CHR ''g''] view_page3 of
      Returned (c, vs) \<Rightarrow> c = Continue \<and> page (v_doc vs) = 3 \<and> stack vs = [0, 103, 103]
    | Raised e w \<Rightarrow> False
    | Blocked w \<Rightarrow> False)"
  by code_simp

lemma scroll_index [simp]: "o_index (scroll s) = o_index s"
  by (simp add: scroll_def Let_def)

lemma move_keys: "NEXT_PAGE shortcuts \<union> PREV_PAGE shortcuts = {106, 258, 32, 107, 259}"
  by (auto simp: key_defs)

text \<open>
  C7, as amended. In each of the three overlay list browsers a next key sets the
  selected index to \<open>min (length - 1) (index + 1)\<close> and a prev key to
  \<open>max 0 (index - 1)\<close>: one step, clamped to the list bounds, whatever was typed before.
  The overlays keep no count prefix: a digit key leaves the selected index as it is
  (the round only adjusts the scroll offset, which never changes the index).
\<close>

theorem overlay_moves_by_one:
  assumes "k \<in> NEXT_PAGE shortcuts \<union> PREV_PAGE shortcuts"
  shows "show_toc_key eng winsz toc k s =
           Returned (Stay (scroll (s\<lparr>o_index :=
             (if k \<in> NEXT_PAGE shortcuts then min (int (length toc) - 1) (o_index s + 1)
              else max 0 (o_index s - 1))\<rparr>))) \<and>
         show_meta_key eng winsz meta k s =
           Returned (Stay (scroll (s\<lparr>o_index :=
             (if k \<in> NEXT_PAGE shortcuts then min (int (length meta) - 1) (o_index s + 1)
              else max 0 (o_index s - 1))\<rparr>))) \<and>
         show_urls_key eng winsz urls k s =
           Returned (Stay (scroll (s\<lparr>o_index :=
             (if k \<in> NEXT_PAGE shortcuts then min (int (length urls) - 1) (o_index s + 1)
              else max 0 (o_index s - 1))\<rparr>))) \<and>
         o_index (scroll s') = o_index s' \<and>
         (48 \<le> dg \<and> dg < 58 \<longrightarrow>
            show_toc_key eng winsz toc dg s = Returned (Stay (scroll s)) \<and>
            show_meta_key eng winsz meta dg s = Returned (Stay (scroll s)) \<and>
            show_urls_key eng winsz urls dg s = Returned (Stay (scroll s)))"
proof -
  from assms have "k \<in> {106, 258, 32, 107, 259}"
    by (simp only: move_keys)
  then consider "k = 106" | "k = 258" | "k = 32" | "k = 107" | "k = 259"
    by auto
  then have moves:
    "show_toc_key eng winsz toc k s =
           Returned (Stay (scroll (s\<lparr>o_index :=
             (if k \<in> NEXT_PAGE shortcuts then min (int (length toc) - 1) (o_index s + 1)
              else max 0 (o_index s - 1))\<rparr>))) \<and>
     show_meta_key eng winsz meta k s =
           Returned (Stay (scroll (s\<lparr>o_index :=
             (if k \<in> NEXT_PAGE shortcuts then min (int (length meta) - 1) (o_index s + 1)
              else max 0 (o_index s - 1))\<rparr>))) \<and>
     show_urls_key eng winsz urls k s =
           Returned (Stay (scroll (s\<lparr>o_index :=
             (if k \<in> NEXT_PAGE shortcuts then min (int (length urls) - 1) (o_index s + 1)
              else max 0 (o_index s - 1))\<rparr>)))"
    by cases (simp_all add: show_toc_key_def show_meta_key_def show_urls_key_def Let_def key_defs)
  have digits: "show_toc_key eng winsz toc dg s = Returned (Stay (scroll s)) \<and>
            show_meta_key eng winsz meta dg s = Returned (Stay (scroll s)) \<and>
            show_urls_key eng winsz urls dg s = Returned (Stay (scroll s))"
    if "48 \<le> dg \<and> dg < 58"
    using that
    by (simp add: show_toc_key_def show_meta_key_def show_urls_key_def Let_def key_defs)
  show ?thesis
    using moves digits by simp
qed

theorem overlay_moves_by_one_witness:
  "show_toc_key ex_engine (24, 80, 800, 480) toc3 (ord CHR ''j'') toc_start =
     Returned (Stay (toc_start\<lparr>o_index := 1\<rparr>)) \<and>
   show_toc_key ex_engine (24, 80, 800, 480) toc3 (ord CHR ''3'') toc_start =
     Returned (Stay toc_start)"
proof -
  have k: "ord CHR ''j'' \<in> NEXT_PAGE shortcuts \<union> PREV_PAGE shortcuts"
    by (simp add: key_defs)
  have n: "ord CHR ''j'' \<in> NEXT_PAGE shortcuts"
    by (simp add: key_defs)
  have d: "48 \<le> ord CHR ''3'' \<and> ord CHR ''3'' < 58"
    by (simp add: ord_def)
  have s1: "scroll (toc_start\<lparr>o_index := 1\<rparr>) = toc_start\<lparr>o_index := 1\<rparr>"
    and s0: "scroll toc_start = toc_start"
    by (simp_all add: scroll_def toc_start_def Let_def)
  have l: "min (int (length toc3) - 1) (o_index toc_start + 1) = 1"
    by (simp add: toc3_def toc_start_def)
  from overlay_moves_by_one [OF k, of ex_engine "(24, 80, 800, 480)" toc3 toc_start _ _ _
      "ord CHR ''3''"] d
  show ?thesis
    by (simp add: n l s1 s0)
qed

text \<open>
  C7 as stated fails: in the table of contents of three entries, entered with the first
  entry selected, the keys \<^verbatim>\<open>3\<close> and \<^verbatim>\<open>j\<close> select entry 1, where a move by the
  count 3, clamped, would select entry 2.
\<close>

theorem overlay_count_counterexample:
  "show_toc_enter (Document 10 True toc3) ex_screen (io0 []) = Returned (Some toc_start) \<and>
   o_index toc_start = 0 \<and>
   min (int (length toc3) - 1) (o_index toc_start + 3) = 2 \<and>
   (case overlay_keys (show_toc_key ex_engine (24, 80, 800, 480) toc3)
           [ord CHR ''3'', ord CHR ''j''] toc_start of
      Returned (Stay s) \<Rightarrow> o_index s = 1
    | Returned (Leave s) \<Rightarrow> False
    | Raised e w \<Rightarrow> False
    | Blocked w \<Rightarrow> False)"
  by code_simp

end
